theory Spec2Isabelle
  imports Main "HOL-Library.Word"
begin

unbundle bit_operations_syntax

section \<open>Transproxify: the command line of \<open>main.cpp\<close>\<close>

text \<open>
  The development embeds \<open>main\<close> of \<open>main.cpp\<close>: the \<open>getopt\<close> loop with its
  \<open>switch\<close>, the count of positional arguments, the two \<open>std::stoi\<close> conversions, the
  password prompt between two \<open>tcsetattr\<close> calls, and the dispatch to the TCP or the UDP
  server. The library functions \<open>main\<close> calls (\<open>getopt\<close>, \<open>std::stoi\<close>,
  \<open>std::istream::getline\<close>) are written out from their documented behaviour.
\<close>

subsection \<open>Settings\<close>

datatype ProxyProtocol = DIRECT | HTTP | SOCKS4 | SOCKS5

datatype ProxiedProtocol = TCP | UDP

text \<open>
  Modelled from the spec: \<open>ProxySettings.hpp\<close> is not among the sources. The record has the
  six fields of the spec's Settings, in the order of the constructor call in \<open>main\<close>.
\<close>

record ProxySettings =
  proxyProtocol :: ProxyProtocol
  proxiedProtocol :: ProxiedProtocol
  proxyHost :: string
  proxyPort :: int
  username :: string
  password :: string

subsection \<open>\<open>std::stoi\<close>\<close>

text \<open>
  \<open>std::stoi(str)\<close> runs \<open>strtol\<close> in base 10: it skips leading white space, takes an
  optional sign and the longest run of decimal digits, and ignores what follows. It throws
  \<open>std::invalid_argument\<close> when there is no digit and \<open>std::out_of_range\<close> when the
  value does not fit an \<open>int\<close> (32 bits).
\<close>

datatype stoi_error = invalid_argument | out_of_range

definition isspace :: "char \<Rightarrow> bool" where
  "isspace c = (c = CHR '' '' \<or> c = CHR 0x09 \<or> c = CHR 0x0A \<or> c = CHR 0x0B
                \<or> c = CHR 0x0C \<or> c = CHR 0x0D)"

definition isdigit :: "char \<Rightarrow> bool" where
  "isdigit c = (48 \<le> (of_char c :: nat) \<and> (of_char c :: nat) \<le> 57)"

definition digit_val :: "char \<Rightarrow> int" where
  "digit_val c = int (of_char c) - 48"

fun digits_value :: "int \<Rightarrow> string \<Rightarrow> int" where
  "digits_value acc [] = acc"
| "digits_value acc (c # cs) = digits_value (10 * acc + digit_val c) cs"

definition INT_MIN :: int where
  "INT_MIN = - (2 ^ 31)"

definition INT_MAX :: int where
  "INT_MAX = 2 ^ 31 - 1"

definition stoi :: "string \<Rightarrow> stoi_error + int" where
  "stoi str =
     (let s1 = dropWhile isspace str;
          neg = (s1 \<noteq> [] \<and> hd s1 = CHR ''-'');
          s2 = (if s1 \<noteq> [] \<and> (hd s1 = CHR ''-'' \<or> hd s1 = CHR ''+'') then tl s1 else s1);
          ds = takeWhile isdigit s2
      in if ds = [] then Inl invalid_argument
         else let v = (if neg then - digits_value 0 ds else digits_value 0 ds)
              in if v < INT_MIN \<or> INT_MAX < v then Inl out_of_range else Inr v)"

subsection \<open>\<open>getopt\<close>\<close>

text \<open>
  \<open>getopt(argc, argv, optstring)\<close> keeps its position between calls (\<open>optind\<close> and the
  rest of the word being scanned); the state is passed explicitly. \<open>argv_rest\<close> holds the
  words not yet looked at, \<open>nextchar\<close> the unread option characters of the current word,
  \<open>nonopts\<close> the words already skipped as not being options. At the end of the scan the
  words from \<open>argv[optind]\<close> on are \<open>nonopts\<close>: GNU \<open>getopt\<close> moves the words it skipped
  behind the options, and stops at the first word that is no option when the environment
  variable \<open>POSIXLY_CORRECT\<close> is set (the flag \<open>posix\<close>).

  A call returns \<open>None\<close> for \<open>-1\<close>, otherwise the option character with \<open>optarg\<close>;
  the character is \<open>?\<close> for a character that is not in \<open>optstring\<close> and for an option whose
  argument is missing. \<open>optarg\<close> is the argument of an option declared with a colon; for
  the other options \<open>getopt\<close> leaves it null, \<open>main\<close> does not read it, and the model
  gives the empty string.
\<close>

record getopt_state =
  nextchar :: string
  argv_rest :: "string list"
  nonopts :: "string list"

fun lookup_opt :: "string \<Rightarrow> char \<Rightarrow> bool option" where
  "lookup_opt [] c = None"
| "lookup_opt (x # xs) c =
     (if x = c \<and> c \<noteq> CHR '':'' then Some (xs \<noteq> [] \<and> hd xs = CHR '':'')
      else lookup_opt xs c)"

definition is_option_word :: "string \<Rightarrow> bool" where
  "is_option_word a = (a \<noteq> [] \<and> hd a = CHR ''-'' \<and> tl a \<noteq> [])"

definition getopt_char ::
  "string \<Rightarrow> char \<Rightarrow> string \<Rightarrow> string list \<Rightarrow> string list
     \<Rightarrow> (char \<times> string) option \<times> getopt_state" where
  "getopt_char optstring c cs rest skipped =
     (case lookup_opt optstring c of
        None \<Rightarrow>
          (Some (CHR ''?'', []), \<lparr>nextchar = cs, argv_rest = rest, nonopts = skipped\<rparr>)
      | Some False \<Rightarrow>
          (Some (c, []), \<lparr>nextchar = cs, argv_rest = rest, nonopts = skipped\<rparr>)
      | Some True \<Rightarrow>
          (if cs \<noteq> [] then
             (Some (c, cs), \<lparr>nextchar = [], argv_rest = rest, nonopts = skipped\<rparr>)
           else case rest of
               [] \<Rightarrow>
                 (Some (CHR ''?'', []), \<lparr>nextchar = [], argv_rest = [], nonopts = skipped\<rparr>)
             | a # rest' \<Rightarrow>
                 (Some (c, a), \<lparr>nextchar = [], argv_rest = rest', nonopts = skipped\<rparr>)))"

definition getopt ::
  "bool \<Rightarrow> string \<Rightarrow> getopt_state \<Rightarrow> (char \<times> string) option \<times> getopt_state" where
  "getopt posix optstring st =
     (case nextchar st of
        c # cs \<Rightarrow> getopt_char optstring c cs (argv_rest st) (nonopts st)
      | [] \<Rightarrow>
          (let skip = (if posix then [] else takeWhile (\<lambda>a. \<not> is_option_word a) (argv_rest st));
               rest = (if posix then argv_rest st
                       else dropWhile (\<lambda>a. \<not> is_option_word a) (argv_rest st));
               skipped = nonopts st @ skip
           in case rest of
                [] \<Rightarrow> (None, \<lparr>nextchar = [], argv_rest = [], nonopts = skipped\<rparr>)
              | a # rest' \<Rightarrow>
                  if a = ''--'' then
                    (None, \<lparr>nextchar = [], argv_rest = [], nonopts = skipped @ rest'\<rparr>)
                  else if \<not> is_option_word a then
                    (None, \<lparr>nextchar = [], argv_rest = [], nonopts = skipped @ rest\<rparr>)
                  else getopt_char optstring (hd (tl a)) (tl (tl a)) rest' skipped))"

definition getopt_init :: "string list \<Rightarrow> getopt_state" where
  "getopt_init args = \<lparr>nextchar = [], argv_rest = args, nonopts = []\<rparr>"

definition getopt_size :: "getopt_state \<Rightarrow> nat" where
  "getopt_size st = length (nextchar st) + sum_list (map (\<lambda>a. Suc (length a)) (argv_rest st))"

text \<open>The result of the \<open>n\<close>-th call of \<open>getopt\<close> (counted from 0) on a command line.\<close>

fun nth_getopt :: "bool \<Rightarrow> string \<Rightarrow> nat \<Rightarrow> getopt_state \<Rightarrow> (char \<times> string) option" where
  "nth_getopt posix optstring 0 st = fst (getopt posix optstring st)"
| "nth_getopt posix optstring (Suc n) st =
     (case getopt posix optstring st of
        (None, st') \<Rightarrow> None
      | (Some r, st') \<Rightarrow> nth_getopt posix optstring n st')"

subsection \<open>What \<open>main\<close> does to the world, and how it ends\<close>

text \<open>
  \<open>main\<close> writes lines to \<open>std::cerr\<close>, prints the usage text, sets the terminal
  attributes of standard input and reads one line from it; these are the events, in the order
  they happen. \<open>TcSetAttr l\<close> is a call of \<open>tcsetattr\<close> that gives the terminal the local
  flags \<open>l\<close>. What the library writes by itself (the diagnostics of \<open>getopt\<close>, the
  message of \<open>std::terminate\<close>) is not recorded.

  \<open>main\<close> ends by \<open>exit(1)\<close>, by an exception nothing catches (\<open>std::terminate\<close>),
  by a signal that kills the process while it waits for the password, or by running one of
  the two servers. \<open>main.cpp\<close> calls no socket function: sockets are opened by the servers
  only, whose code is not part of \<open>main.cpp\<close>.
\<close>

datatype event = Cerr string | Usage | TcSetAttr "32 word" | CinGetline

datatype outcome =
    Exit int
  | Terminate stoi_error
  | KilledBySignal
  | RunTcpServer ProxySettings int
  | RunUdpServer ProxySettings int

fun reaches_server :: "outcome \<Rightarrow> bool" where
  "reaches_server (RunTcpServer s p) = True"
| "reaches_server (RunUdpServer s p) = True"
| "reaches_server other = False"

fun exit_status :: "outcome \<Rightarrow> int option" where
  "exit_status (Exit n) = Some n"
| "exit_status other = None"

text \<open>The local flags of the terminal after a sequence of events, from the flags before it.\<close>

fun lflag_after :: "32 word \<Rightarrow> event list \<Rightarrow> 32 word" where
  "lflag_after l [] = l"
| "lflag_after l (TcSetAttr l' # evs) = lflag_after l' evs"
| "lflag_after l (e # evs) = lflag_after l evs"

subsection \<open>The option loop of \<open>main\<close>\<close>

text \<open>The local variables of \<open>main\<close>: those that become the settings, and two more.\<close>

record main_vars = ProxySettings +
  listenPort :: int
  promptPassword :: bool

definition initial_vars :: main_vars where
  "initial_vars =
     \<lparr>proxyProtocol = HTTP, proxiedProtocol = TCP, proxyHost = [], proxyPort = 0,
      username = [], password = [], listenPort = 0, promptPassword = False\<rparr>"

definition optstring :: string where
  "optstring = ''t:r:u:pP:''"

text \<open>
  The body of the \<open>switch\<close> for one option returned by \<open>getopt\<close>: the variables after
  it, or what was written before \<open>exit(1)\<close>.
\<close>

definition switch_option ::
  "char \<Rightarrow> string \<Rightarrow> main_vars \<Rightarrow> (event list \<times> outcome) + main_vars" where
  "switch_option c optarg v =
     (if c = CHR ''t'' then
        (if optarg = ''direct'' then Inr (v\<lparr>proxyProtocol := DIRECT\<rparr>)
         else if optarg = ''http'' then Inr (v\<lparr>proxyProtocol := HTTP\<rparr>)
         else if optarg = ''socks4'' then Inr (v\<lparr>proxyProtocol := SOCKS4\<rparr>)
         else if optarg = ''socks5'' then Inr (v\<lparr>proxyProtocol := SOCKS5\<rparr>)
         else Inl ([Cerr ''Unknown proxy protocol'', Usage], Exit 1))
      else if c = CHR ''r'' then
        (if optarg = ''tcp'' then Inr (v\<lparr>proxiedProtocol := TCP\<rparr>)
         else if optarg = ''udp'' then Inr (v\<lparr>proxiedProtocol := UDP\<rparr>)
         else Inl ([Cerr ''Unknown proxied protocol'', Usage], Exit 1))
      else if c = CHR ''u'' then Inr (v\<lparr>username := optarg\<rparr>)
      else if c = CHR ''p'' then Inr (v\<lparr>promptPassword := True\<rparr>)
      else if c = CHR ''P'' then Inr (v\<lparr>password := optarg\<rparr>)
      else Inl ([Cerr ''Bad option'', Usage], Exit 1))"

text \<open>
  The \<open>while\<close> loop: it ends when \<open>getopt\<close> returns \<open>-1\<close>, with the variables and the
  positional arguments, or at the first \<open>exit(1)\<close>.
\<close>

function main_loop ::
  "bool \<Rightarrow> getopt_state \<Rightarrow> main_vars \<Rightarrow> (event list \<times> outcome) + (main_vars \<times> string list)" where
  "main_loop posix st v =
     (case getopt posix optstring st of
        (None, st') \<Rightarrow> Inr (v, nonopts st')
      | (Some (c, optarg), st') \<Rightarrow>
          (case switch_option c optarg v of
             Inl stopped \<Rightarrow> Inl stopped
           | Inr v' \<Rightarrow> main_loop posix st' v'))"
  by pat_completeness auto
termination
proof -
  have char_dec: "getopt_size st' < Suc (length cs) + sum_list (map (\<lambda>a. Suc (length a)) rest)"
    if "getopt_char os c cs rest sk = (Some r, st')" for os c cs rest sk r st'
    using that
    by (auto simp: getopt_char_def getopt_size_def split: option.splits bool.splits if_splits list.splits)
  have drop_le: "sum_list (map (\<lambda>a. Suc (length a)) (dropWhile P xs))
                   \<le> sum_list (map (\<lambda>a. Suc (length a)) xs)" for P and xs :: "string list"
    by (induction xs) auto
  have dec: "getopt_size st' < getopt_size st"
    if g: "getopt posix os st = (Some r, st')" for posix os st r st'
  proof (cases "nextchar st")
    case (Cons c cs)
    with g have "getopt_char os c cs (argv_rest st) (nonopts st) = (Some r, st')"
      by (simp add: getopt_def)
    from char_dec [OF this] Cons show ?thesis
      by (simp add: getopt_size_def)
  next
    case Nil
    define rest where "rest = (if posix then argv_rest st
                       else dropWhile (\<lambda>a. \<not> is_option_word a) (argv_rest st))"
    have le: "sum_list (map (\<lambda>a. Suc (length a)) rest)
                \<le> sum_list (map (\<lambda>a. Suc (length a)) (argv_rest st))"
      unfolding rest_def using drop_le by simp
    from g Nil obtain a rest' sk where
      r: "rest = a # rest'" and w: "is_option_word a"
      and gc: "getopt_char os (hd (tl a)) (tl (tl a)) rest' sk = (Some r, st')"
      by (auto simp: getopt_def Let_def rest_def [symmetric] split: list.splits if_splits)
    from w have "Suc (length (tl (tl a))) < Suc (length a)"
      by (cases a; cases "tl a") (auto simp: is_option_word_def)
    with char_dec [OF gc] le r Nil show ?thesis
      by (simp add: getopt_size_def)
  qed
  show ?thesis
    by (relation "measure (\<lambda>(posix, st, v). getopt_size st)") (auto dest: dec [OF sym])
qed

subsection \<open>The password prompt\<close>

text \<open>
  \<open>std::cin.getline(s, n)\<close> takes characters from the stream and stores them until, tested
  in this order before each character: the stream is at its end; the next character is the
  newline, which is taken and not stored; \<open>n - 1\<close> characters are stored, which sets
  \<open>failbit\<close>. It also sets \<open>failbit\<close> when it has taken no character at all.
  \<open>getline_chars k cs\<close> gives the characters stored from the stream \<open>cs\<close> when \<open>k\<close> more fit,
  and why it stopped.
\<close>

datatype getline_stop = AtEof | AtDelim | Full

fun getline_chars :: "nat \<Rightarrow> string \<Rightarrow> string \<times> getline_stop" where
  "getline_chars k [] = ([], AtEof)"
| "getline_chars k (c # cs) =
     (if c = CHR 0x0A then ([], AtDelim)
      else if k = 0 then ([], Full)
      else (case getline_chars (k - 1) cs of (stored, stop) \<Rightarrow> (c # stored, stop)))"

definition cin_getline :: "nat \<Rightarrow> string \<Rightarrow> string \<times> bool" where
  "cin_getline n cs =
     (case getline_chars (n - 1) cs of
        (stored, stop) \<Rightarrow> (stored, stop = Full \<or> (stop = AtEof \<and> stored = [])))"

text \<open>
  \<open>password = passwordCstr\<close> reads the buffer as a C string: the characters before the
  first null character.
\<close>

definition c_string :: "string \<Rightarrow> string" where
  "c_string buf = takeWhile (\<lambda>c. c \<noteq> CHR 0x00) buf"

text \<open>
  What standard input does when \<open>main\<close> reads the password: it delivers the characters
  \<open>cs\<close> and then its end, or a signal (an interrupt typed at the terminal, say) kills the
  process while it waits in the read; \<open>main\<close> installs no signal handler.
\<close>

datatype stdin_behaviour = Delivers string | Interrupted

text \<open>
  The environment of a run: whether \<open>POSIXLY_CORRECT\<close> is set, the local flags of the
  terminal on standard input (\<open>None\<close> when standard input is no terminal, and then
  \<open>tcsetattr\<close> fails and changes nothing), and the behaviour of standard input.
\<close>

record environment =
  posixly_correct :: bool
  stdin_lflag :: "32 word option"
  stdin_input :: stdin_behaviour

definition ECHO :: "32 word" where
  "ECHO = 8"

definition tcsetattr :: "32 word option \<Rightarrow> (32 word \<Rightarrow> 32 word) \<Rightarrow> event list" where
  "tcsetattr tty f = (case tty of None \<Rightarrow> [] | Some l \<Rightarrow> [TcSetAttr (f l)])"

definition prompt_password ::
  "environment \<Rightarrow> main_vars \<Rightarrow> (event list \<times> outcome) + (event list \<times> main_vars)" where
  "prompt_password env v =
     (let echo_off = tcsetattr (stdin_lflag env) (\<lambda>l. l AND NOT ECHO);
          asked = echo_off @ [Cerr ''Please enter your proxy's password:'', CinGetline];
          echo_on = tcsetattr (stdin_lflag env) (\<lambda>l. (l AND NOT ECHO) OR ECHO)
      in case stdin_input env of
           Interrupted \<Rightarrow> Inl (asked, KilledBySignal)
         | Delivers cs \<Rightarrow>
             (case cin_getline 256 cs of
                (passwordCstr, failed) \<Rightarrow>
                  if failed then
                    Inl (asked @ echo_on @ [Cerr ''Failed to get password from stdin''], Exit 1)
                  else Inr (asked @ echo_on, v\<lparr>password := c_string passwordCstr\<rparr>)))"

subsection \<open>\<open>main\<close>\<close>

definition settings_of :: "main_vars \<Rightarrow> ProxySettings" where
  "settings_of v =
     \<lparr>proxyProtocol = proxyProtocol v, proxiedProtocol = proxiedProtocol v,
      proxyHost = proxyHost v, proxyPort = proxyPort v,
      username = username v, password = password v\<rparr>"

definition run_server :: "main_vars \<Rightarrow> outcome" where
  "run_server v =
     (case proxiedProtocol v of
        TCP \<Rightarrow> RunTcpServer (settings_of v) (listenPort v)
      | UDP \<Rightarrow> RunUdpServer (settings_of v) (listenPort v))"

text \<open>
  The conversions of the two ports: \<open>std::invalid_argument\<close> is caught and leads to the
  usage text and \<open>exit(1)\<close>; \<open>std::out_of_range\<close> is not caught.
\<close>

definition parse_positional ::
  "main_vars \<Rightarrow> string list \<Rightarrow> (event list \<times> outcome) + main_vars" where
  "parse_positional v positional =
     (if length positional \<noteq> 3 then Inl ([Usage], Exit 1)
      else case stoi (positional ! 1) of
             Inl invalid_argument \<Rightarrow> Inl ([Usage], Exit 1)
           | Inl out_of_range \<Rightarrow> Inl ([], Terminate out_of_range)
           | Inr port1 \<Rightarrow>
               (case stoi (positional ! 2) of
                  Inl invalid_argument \<Rightarrow> Inl ([Usage], Exit 1)
                | Inl out_of_range \<Rightarrow> Inl ([], Terminate out_of_range)
                | Inr port2 \<Rightarrow>
                    Inr (v\<lparr>proxyHost := positional ! 0, proxyPort := port1,
                           listenPort := port2\<rparr>)))"

definition main :: "environment \<Rightarrow> string list \<Rightarrow> event list \<times> outcome" where
  "main env args =
     (case main_loop (posixly_correct env) (getopt_init args) initial_vars of
        Inl stopped \<Rightarrow> stopped
      | Inr (v, positional) \<Rightarrow>
          (case parse_positional v positional of
             Inl stopped \<Rightarrow> stopped
           | Inr v1 \<Rightarrow>
               if promptPassword v1 then
                 (case prompt_password env v1 of
                    Inl stopped \<Rightarrow> stopped
                  | Inr (evs, v2) \<Rightarrow> (evs, run_server v2))
               else ([], run_server v1)))"

text \<open>The password in the settings a server is run with.\<close>

fun password_given_to_server :: "outcome \<Rightarrow> string option" where
  "password_given_to_server (RunTcpServer s p) = Some (password s)"
| "password_given_to_server (RunUdpServer s p) = Some (password s)"
| "password_given_to_server other = None"

section \<open>The handshakes and the stream relay\<close>

text \<open>
  The servers (\<open>TcpServer\<close>, \<open>UdpServer\<close>) and their helpers are not among the sources;
  only \<open>main.cpp\<close> is. What follows in this section is written from the specification
  (sections 4.2, 4.3 and 6) and from the usage text in \<open>main.cpp\<close>.
\<close>

subsection \<open>Credentials, destinations, results\<close>

text \<open>
  Modelled from the spec: the test for configured credentials is in the missing handshake code.
  The usage text of \<open>main.cpp\<close> says the authentication is offered if a username and
  password are supplied; the settings hold both as strings, empty when not given.
\<close>

definition credentials_configured :: "ProxySettings \<Rightarrow> bool" where
  "credentials_configured s = (username s \<noteq> [] \<and> password s \<noteq> [])"

text \<open>
  Modelled from the spec: the Destination of section 3, an address and a port; its declaration
  is missing.
\<close>

record Destination =
  address :: string
  port :: nat

text \<open>
  Modelled from the spec: the failures of a handshake (section 4.2) and its result, a Tunnel
  or a failure; the declarations are missing.
\<close>

datatype handshake_error = ProxyUnreachable | ProxyRejected | ProtocolError | UnsupportedAddress

datatype handshake_result = Tunnel | Failed handshake_error

subsection \<open>HTTP\<close>

text \<open>
  Modelled from the spec: Base64 (RFC 4648, with padding), which the missing HTTP handshake
  applies to \<open>user:pass\<close>.
\<close>

definition base64_alphabet :: string where
  "base64_alphabet = ''ABCDEFGHIJKLMNOPQRSTUVWXYZabcdefghijklmnopqrstuvwxyz0123456789+/''"

text \<open>Modelled from the spec: the Base64 digit of a six-bit value (missing helper).\<close>

definition base64_digit :: "nat \<Rightarrow> char" where
  "base64_digit n = base64_alphabet ! (n mod 64)"

text \<open>Modelled from the spec: Base64 of a sequence of bytes given by their values (missing helper).\<close>

fun base64_bytes :: "nat list \<Rightarrow> string" where
  "base64_bytes [] = []"
| "base64_bytes [a] =
     [base64_digit (a div 4), base64_digit ((a mod 4) * 16), CHR ''='', CHR ''='']"
| "base64_bytes [a, b] =
     [base64_digit (a div 4), base64_digit ((a mod 4) * 16 + b div 16),
      base64_digit ((b mod 16) * 4), CHR ''='']"
| "base64_bytes (a # b # c # rest) =
     [base64_digit (a div 4), base64_digit ((a mod 4) * 16 + b div 16),
      base64_digit ((b mod 16) * 4 + c div 64), base64_digit (c mod 64)] @ base64_bytes rest"

text \<open>Modelled from the spec: Base64 of a string (missing helper).\<close>

definition base64 :: "string \<Rightarrow> string" where
  "base64 str = base64_bytes (map of_char str)"

text \<open>Modelled from the spec: a port in decimal, as in \<open>host:port\<close> (missing helper).\<close>

fun decimal :: "nat \<Rightarrow> string" where
  "decimal n =
     (if n < 10 then [char_of (48 + n)] else decimal (n div 10) @ [char_of (48 + n mod 10)])"

text \<open>Modelled from the spec: \<open>host:port\<close> of a destination (missing helper).\<close>

definition host_port :: "Destination \<Rightarrow> string" where
  "host_port d = address d @ '':'' @ decimal (port d)"

definition CRLF :: string where
  "CRLF = [CHR 0x0D, CHR 0x0A]"

text \<open>
  Modelled from the spec: the header fields of the CONNECT request of the missing HTTP
  handshake: \<open>Host\<close>, and \<open>Proxy-Authorization\<close> if credentials are configured.
\<close>

definition http_connect_headers :: "ProxySettings \<Rightarrow> Destination \<Rightarrow> (string \<times> string) list" where
  "http_connect_headers s d =
     (''Host'', host_port d) #
     (if credentials_configured s
      then [(''Proxy-Authorization'', ''Basic '' @ base64 (username s @ '':'' @ password s))]
      else [])"

text \<open>
  Modelled from the spec: the bytes the missing HTTP handshake sends: the request line, the
  header fields, a blank line.
\<close>

definition http_connect_request :: "ProxySettings \<Rightarrow> Destination \<Rightarrow> string" where
  "http_connect_request s d =
     ''CONNECT '' @ host_port d @ '' HTTP/1.1'' @ CRLF
     @ concat (map (\<lambda>(name, val). name @ '': '' @ val @ CRLF) (http_connect_headers s d))
     @ CRLF"

text \<open>
  Modelled from the spec: the status line of the proxy's response, the characters before the
  first line end; there is none when the response has no line end (missing helper).
\<close>

fun status_line :: "string \<Rightarrow> string option" where
  "status_line [] = None"
| "status_line (c # cs) =
     (if c = CHR 0x0D \<and> take 1 cs = [CHR 0x0A] then Some []
      else map_option ((#) c) (status_line cs))"

text \<open>
  Modelled from the spec: the status code of a response whose status line is
  \<open>HTTP/\<close>version, a space, three digits, and then a space or the end (missing helper).
\<close>

definition http_status :: "string \<Rightarrow> nat option" where
  "http_status response =
     (case status_line response of
        None \<Rightarrow> None
      | Some line \<Rightarrow>
          (let version = takeWhile (\<lambda>c. c \<noteq> CHR '' '') line;
               code = takeWhile (\<lambda>c. c \<noteq> CHR '' '') (drop 1 (dropWhile (\<lambda>c. c \<noteq> CHR '' '') line))
           in if take 5 version = ''HTTP/'' \<and> length code = 3 \<and> list_all isdigit code
              then Some (nat (digits_value 0 code)) else None))"

text \<open>
  Modelled from the spec: the end of the missing HTTP handshake: a 2xx status gives the
  Tunnel, any other status or a malformed response fails with \<open>ProxyRejected\<close>.
\<close>

definition http_handshake :: "string \<Rightarrow> handshake_result" where
  "http_handshake response =
     (case http_status response of
        None \<Rightarrow> Failed ProxyRejected
      | Some code \<Rightarrow> if 200 \<le> code \<and> code < 300 then Tunnel else Failed ProxyRejected)"

subsection \<open>SOCKS5 greeting\<close>

text \<open>
  Modelled from the spec: the authentication methods the missing SOCKS5 handshake offers: no
  authentication (0) always, username/password (2) if credentials are configured.
\<close>

definition socks5_methods :: "ProxySettings \<Rightarrow> 8 word list" where
  "socks5_methods s = 0 # (if credentials_configured s then [2] else [])"

text \<open>
  Modelled from the spec: the greeting of the missing SOCKS5 handshake: version 5, the number
  of methods, the methods.
\<close>

definition socks5_greeting :: "ProxySettings \<Rightarrow> 8 word list" where
  "socks5_greeting s = 5 # of_nat (length (socks5_methods s)) # socks5_methods s"

text \<open>
  Modelled from the spec: what a SOCKS5 server reads from a greeting, the method list, when
  the version is 5 and the count is the number of bytes that follow.
\<close>

definition greeting_methods :: "8 word list \<Rightarrow> 8 word list option" where
  "greeting_methods bytes =
     (case bytes of
        ver # n # methods \<Rightarrow> if ver = 5 \<and> unat n = length methods then Some methods else None
      | _ \<Rightarrow> None)"

subsection \<open>SOCKS4 reply\<close>

text \<open>
  Modelled from the spec: the 8-byte reply of a SOCKS4 proxy: version, status, port, address;
  the declaration is missing.
\<close>

record socks4_reply =
  reply_version :: "8 word"
  reply_status :: "8 word"
  reply_port :: "16 word"
  reply_address :: "32 word"

text \<open>
  Modelled from the spec: the per-connection context of section 3 with what a claim observes
  of it: whether the client socket and the upstream socket are open, and whether the relay
  was started; the declaration is missing.
\<close>

record RelayContext =
  client_open :: bool
  upstream_open :: bool
  relay_started :: bool

text \<open>
  Modelled from the spec: the Cleaner of section 4.6, which releases both sockets of a
  context; its code is missing.
\<close>

definition cleaner :: "RelayContext \<Rightarrow> RelayContext" where
  "cleaner ctx = ctx\<lparr>client_open := False, upstream_open := False\<rparr>"

text \<open>
  Modelled from the spec: the end of the missing SOCKS4 handshake on a connection whose
  upstream socket is connected and whose request is sent: status \<open>0x5A\<close> grants and the
  relay starts on the Tunnel; any other status fails with \<open>ProxyRejected\<close>, the relay is
  not started and the Cleaner releases the sockets.
\<close>

definition socks4_handshake :: "socks4_reply \<Rightarrow> handshake_result" where
  "socks4_handshake reply = (if reply_status reply = 0x5A then Tunnel else Failed ProxyRejected)"

text \<open>
  Modelled from the spec: the missing handler of one accepted connection in SOCKS4 mode,
  from the moment the reply is read.
\<close>

definition socks4_connection :: "socks4_reply \<Rightarrow> handshake_result \<times> RelayContext" where
  "socks4_connection reply =
     (let ctx = \<lparr>client_open = True, upstream_open = True, relay_started = False\<rparr>
      in case socks4_handshake reply of
           Tunnel \<Rightarrow> (Tunnel, ctx\<lparr>relay_started := True\<rparr>)
         | Failed e \<Rightarrow> (Failed e, cleaner ctx))"

subsection \<open>Stream relay\<close>








section \<open>Properties of the command line\<close>

subsection \<open>The option loop, one call of \<open>getopt\<close> at a time\<close>

declare main_loop.simps [simp del]

lemma main_loop_end:
  "getopt posix optstring st = (None, st') \<Longrightarrow> main_loop posix st v = Inr (v, nonopts st')"
  by (subst main_loop.simps) simp

lemma main_loop_stop:
  "getopt posix optstring st = (Some (c, a), st') \<Longrightarrow> switch_option c a v = Inl stopped \<Longrightarrow>
   main_loop posix st v = Inl stopped"
  by (subst main_loop.simps) simp

lemma main_loop_step:
  "getopt posix optstring st = (Some (c, a), st') \<Longrightarrow> switch_option c a v = Inr v' \<Longrightarrow>
   main_loop posix st v = main_loop posix st' v'"
  by (subst main_loop.simps) simp

lemma main_loop_cases:
  obtains (End) st' where "getopt posix optstring st = (None, st')"
      "main_loop posix st v = Inr (v, nonopts st')"
  | (Stop) c a st' stopped where "getopt posix optstring st = (Some (c, a), st')"
      "switch_option c a v = Inl stopped" "main_loop posix st v = Inl stopped"
  | (Step) c a st' v' where "getopt posix optstring st = (Some (c, a), st')"
      "switch_option c a v = Inr v'" "main_loop posix st v = main_loop posix st' v'"
proof -
  obtain r st' where g: "getopt posix optstring st = (r, st')"
    by (cases "getopt posix optstring st")
  show thesis
  proof (cases r)
    case None
    with g show ?thesis using End main_loop_end by blast
  next
    case (Some ca)
    obtain c a where ca: "ca = (c, a)" by (cases ca)
    with g Some have g': "getopt posix optstring st = (Some (c, a), st')" by simp
    show ?thesis
    proof (cases "switch_option c a v")
      case (Inl stopped)
      with g' show ?thesis using Stop main_loop_stop by blast
    next
      case (Inr v')
      with g' show ?thesis using Step main_loop_step by blast
    qed
  qed
qed

lemma switch_option_stopped:
  "switch_option c a v = Inl (evs, out) \<Longrightarrow>
     out = Exit 1 \<and> Usage \<in> set evs \<and> CinGetline \<notin> set evs"
  by (auto simp: switch_option_def split: if_splits)

lemma switch_option_keeps_prompt:
  "switch_option c a v = Inr v' \<Longrightarrow> promptPassword v \<Longrightarrow> promptPassword v'"
  by (auto simp: switch_option_def split: if_splits)

lemma main_loop_stopped:
  "main_loop posix st v = Inl (evs, out) \<Longrightarrow>
     out = Exit 1 \<and> Usage \<in> set evs \<and> CinGetline \<notin> set evs"
proof (induction posix st v rule: main_loop.induct)
  case (1 posix st v)
  show ?case
  proof (cases posix st v rule: main_loop_cases)
    case (End st')
    with "1.prems" show ?thesis by simp
  next
    case (Stop c a st' stopped)
    with "1.prems" show ?thesis by (simp add: switch_option_stopped)
  next
    case (Step c a st' v')
    from "1.IH" [OF Step(1) [symmetric] refl refl Step(2)] "1.prems" Step(3)
    show ?thesis by simp
  qed
qed

lemma main_loop_keeps_prompt:
  "main_loop posix st v = Inr (v', positional) \<Longrightarrow> promptPassword v \<Longrightarrow> promptPassword v'"
proof (induction posix st v rule: main_loop.induct)
  case (1 posix st v)
  show ?case
  proof (cases posix st v rule: main_loop_cases)
    case (End st')
    with "1.prems" show ?thesis by simp
  next
    case (Stop c a st' stopped)
    with "1.prems" show ?thesis by simp
  next
    case (Step c a st' v')
    from "1.IH" [OF Step(1) [symmetric] refl refl Step(2)] "1.prems" Step
    show ?thesis by (simp add: switch_option_keeps_prompt)
  qed
qed

subsection \<open>Positional arguments\<close>

lemma parse_positional_usage:
  "length positional \<noteq> 3 \<or> stoi (positional ! 1) = Inl invalid_argument
     \<or> (\<exists>n. stoi (positional ! 1) = Inr n \<and> stoi (positional ! 2) = Inl invalid_argument)
   \<Longrightarrow> parse_positional v positional = Inl ([Usage], Exit 1)"
  by (auto simp: parse_positional_def)

text \<open>
  Claim C3. A port argument that is no integer at all leads to the usage text and
  \<open>exit(1)\<close>, but one whose value is out of the range of \<open>int\<close> does not:
  \<open>transproxify proxyserver 99999999999 10000\<close> ends in \<open>std::terminate\<close> on the
  \<open>std::out_of_range\<close> that \<open>main\<close> does not catch, with no usage text and no
  \<open>exit(1)\<close>, whatever the environment.
\<close>

theorem out_of_range_port_terminates:
  "main env [''proxyserver'', ''99999999999'', ''10000''] = ([], Terminate out_of_range)"
proof -
  have g: "getopt (posixly_correct env) optstring
             (getopt_init [''proxyserver'', ''99999999999'', ''10000''])
           = (None, \<lparr>nextchar = [], argv_rest = [],
                     nonopts = [''proxyserver'', ''99999999999'', ''10000'']\<rparr>)"
    by (simp add: getopt_def getopt_init_def is_option_word_def)
  have s: "stoi ''99999999999'' = Inl out_of_range"
    by (simp add: stoi_def isspace_def isdigit_def digit_val_def INT_MIN_def INT_MAX_def Let_def)
  show ?thesis
    by (simp add: main_def main_loop_end [OF g] parse_positional_def s)
qed

subsection \<open>The two protocols together\<close>

text \<open>
  \<open>main\<close> checks the value of \<open>-t\<close> and the value of \<open>-r\<close> each by itself and never
  compares the two: with \<open>-r udp -t http\<close> it runs the UDP server with the HTTP setting.
  What the server does with it is outside \<open>main.cpp\<close>.
\<close>

lemma udp_with_http_reaches_udp_server:
  "main \<lparr>posixly_correct = False, stdin_lflag = None, stdin_input = Delivers []\<rparr>
     [''-r'', ''udp'', ''-t'', ''http'', ''proxyserver'', ''8080'', ''10000'']
   = ([], RunUdpServer
           \<lparr>proxyProtocol = HTTP, proxiedProtocol = UDP, proxyHost = ''proxyserver'',
            proxyPort = 8080, username = [], password = []\<rparr> 10000)"
  by code_simp

subsection \<open>Unknown protocol names\<close>

lemma switch_option_unknown:
  "(c = CHR ''t'' \<and> a \<notin> {''direct'', ''http'', ''socks4'', ''socks5''})
     \<or> (c = CHR ''r'' \<and> a \<notin> {''tcp'', ''udp''})
   \<Longrightarrow> \<exists>evs. switch_option c a v = Inl (evs, Exit 1)"
  by (auto simp: switch_option_def)

lemma nth_getopt_unknown_stops:
  assumes "nth_getopt posix optstring n st = Some (c, a)"
      and "(c = CHR ''t'' \<and> a \<notin> {''direct'', ''http'', ''socks4'', ''socks5''})
             \<or> (c = CHR ''r'' \<and> a \<notin> {''tcp'', ''udp''})"
  shows "\<exists>evs. main_loop posix st v = Inl (evs, Exit 1)"
  using assms(1)
proof (induction n arbitrary: st v)
  case 0
  show ?case
  proof (cases posix st v rule: main_loop_cases)
    case (End st')
    with 0 show ?thesis by simp
  next
    case (Stop c' a' st' stopped)
    with 0 switch_option_unknown [OF assms(2), of v] show ?thesis by simp
  next
    case (Step c' a' st' v')
    with 0 switch_option_unknown [OF assms(2), of v] show ?thesis by simp
  qed
next
  case (Suc n)
  show ?case
  proof (cases posix st v rule: main_loop_cases)
    case (End st')
    with Suc.prems show ?thesis by simp
  next
    case (Stop c' a' st' stopped)
    obtain evs out where "stopped = (evs, out)" by (cases stopped)
    with Stop switch_option_stopped [of c' a' v evs out] show ?thesis by simp
  next
    case (Step c' a' st' v')
    with Suc.prems have "nth_getopt posix optstring n st' = Some (c, a)" by simp
    from Suc.IH [OF this, of v'] Step(3) show ?thesis by simp
  qed
qed

text \<open>
  Claim C4. When some call of \<open>getopt\<close> returns the option \<open>-t\<close> with a value other than
  \<open>direct\<close>, \<open>http\<close>, \<open>socks4\<close>, \<open>socks5\<close>, or the option \<open>-r\<close> with a value other
  than \<open>tcp\<close>, \<open>udp\<close>, the process exits with status 1 and reaches neither server, so it
  opens no socket.
\<close>

theorem unknown_protocol_value_exits:
  assumes "nth_getopt (posixly_correct env) optstring n (getopt_init args) = Some (c, a)"
      and "(c = CHR ''t'' \<and> a \<notin> {''direct'', ''http'', ''socks4'', ''socks5''})
             \<or> (c = CHR ''r'' \<and> a \<notin> {''tcp'', ''udp''})"
  shows "exit_status (snd (main env args)) = Some 1 \<and> \<not> reaches_server (snd (main env args))"
proof -
  from nth_getopt_unknown_stops [OF assms, of initial_vars]
  obtain evs where "main_loop (posixly_correct env) (getopt_init args) initial_vars = Inl (evs, Exit 1)"
    by blast
  then show ?thesis by (simp add: main_def)
qed

text \<open>
  The hypotheses of C4 hold for \<open>-t socks6\<close> and for \<open>-ricmp\<close> after another option.
\<close>

theorem unknown_protocol_value_exits_witness:
  "nth_getopt False optstring 0 (getopt_init [''-t'', ''socks6'', ''proxyserver'', ''1080'', ''10000''])
     = Some (CHR ''t'', ''socks6'')
   \<and> ''socks6'' \<notin> {''direct'', ''http'', ''socks4'', ''socks5''}
   \<and> exit_status (snd (main \<lparr>posixly_correct = False, stdin_lflag = None, stdin_input = Delivers []\<rparr>
         [''-t'', ''socks6'', ''proxyserver'', ''1080'', ''10000''])) = Some 1
   \<and> nth_getopt False optstring 1 (getopt_init [''-u'', ''alice'', ''-ricmp'', ''proxyserver'', ''1080'', ''10000''])
     = Some (CHR ''r'', ''icmp'')
   \<and> ''icmp'' \<notin> {''tcp'', ''udp''}
   \<and> \<not> reaches_server (snd (main \<lparr>posixly_correct = False, stdin_lflag = None, stdin_input = Delivers []\<rparr>
         [''-u'', ''alice'', ''-ricmp'', ''proxyserver'', ''1080'', ''10000'']))"
proof -
  have t: "nth_getopt (posixly_correct \<lparr>posixly_correct = False, stdin_lflag = None, stdin_input = Delivers []\<rparr>)
        optstring 0 (getopt_init [''-t'', ''socks6'', ''proxyserver'', ''1080'', ''10000''])
     = Some (CHR ''t'', ''socks6'')"
    by code_simp
  have r: "nth_getopt (posixly_correct \<lparr>posixly_correct = False, stdin_lflag = None, stdin_input = Delivers []\<rparr>)
        optstring 1 (getopt_init [''-u'', ''alice'', ''-ricmp'', ''proxyserver'', ''1080'', ''10000''])
     = Some (CHR ''r'', ''icmp'')"
    by code_simp
  show ?thesis
    using unknown_protocol_value_exits [OF t] unknown_protocol_value_exits [OF r] t r
    by simp
qed

subsection \<open>The two password options\<close>

lemma nth_getopt_p_prompts:
  assumes "nth_getopt posix optstring n st = Some (CHR ''p'', a)"
      and "main_loop posix st v = Inr (v', positional)"
  shows "promptPassword v'"
  using assms
proof (induction n arbitrary: st v)
  case 0
  show ?case
  proof (cases posix st v rule: main_loop_cases)
    case (End st')
    with 0 show ?thesis by simp
  next
    case (Stop c' a' st' stopped)
    with 0 show ?thesis by simp
  next
    case (Step c' a' st' v1)
    with 0 have "switch_option (CHR ''p'') a v = Inr v1" by simp
    then have "promptPassword v1" by (auto simp: switch_option_def)
    moreover from Step(3) "0.prems"(2) have "main_loop posix st' v1 = Inr (v', positional)"
      by simp
    ultimately show ?thesis by (rule main_loop_keeps_prompt [rotated])
  qed
next
  case (Suc n)
  show ?case
  proof (cases posix st v rule: main_loop_cases)
    case (End st')
    with Suc.prems show ?thesis by simp
  next
    case (Stop c' a' st' stopped)
    with Suc.prems show ?thesis by simp
  next
    case (Step c' a' st' v1)
    with Suc.prems have "nth_getopt posix optstring n st' = Some (CHR ''p'', a)" by simp
    from Suc.IH [OF this, of v1] Step(3) Suc.prems(2) show ?thesis by simp
  qed
qed

lemma parse_positional_keeps_prompt:
  "parse_positional v positional = Inr v1 \<Longrightarrow> promptPassword v1 = promptPassword v"
  by (auto simp: parse_positional_def split: if_splits sum.splits stoi_error.splits)

lemma main_reaches_server:
  assumes "reaches_server (snd (main env args))"
  obtains v positional v1 where
    "main_loop (posixly_correct env) (getopt_init args) initial_vars = Inr (v, positional)"
    "parse_positional v positional = Inr v1"
proof (cases "main_loop (posixly_correct env) (getopt_init args) initial_vars")
  case (Inl stopped)
  obtain evs out where s: "stopped = (evs, out)" by (cases stopped)
  with Inl main_loop_stopped have "out = Exit 1" by blast
  with Inl s assms show ?thesis by (simp add: main_def)
next
  case (Inr r)
  obtain v positional where r: "r = (v, positional)" by (cases r)
  show ?thesis
  proof (cases "parse_positional v positional")
    case (Inl stopped)
    then have "snd stopped = Exit 1 \<or> snd stopped = Terminate out_of_range"
      by (auto simp: parse_positional_def split: if_splits sum.splits stoi_error.splits)
    with Inl Inr r assms show ?thesis by (auto simp: main_def)
  next
    case (Inr v1)
    with \<open>main_loop (posixly_correct env) (getopt_init args) initial_vars = Inr r\<close> r that
    show ?thesis by simp
  qed
qed

text \<open>
  Claim C2, amended. When \<open>-p\<close> is among the options and the process reaches a server, the
  password given to the server is the one read at the prompt, wherever \<open>-P PASSWORD\<close> stands
  on the command line, before \<open>-p\<close> or after it: the prompt comes after the whole option
  loop.
\<close>

theorem prompted_password_wins:
  assumes "nth_getopt (posixly_correct env) optstring n (getopt_init args) = Some (CHR ''p'', a)"
      and "stdin_input env = Delivers cs"
      and "reaches_server (snd (main env args))"
  shows "password_given_to_server (snd (main env args))
           = Some (c_string (fst (cin_getline 256 cs)))"
proof -
  from assms(3) obtain v positional v1 where
    l: "main_loop (posixly_correct env) (getopt_init args) initial_vars = Inr (v, positional)"
    and p: "parse_positional v positional = Inr v1"
    by (rule main_reaches_server)
  from nth_getopt_p_prompts [OF assms(1) l] p have pr: "promptPassword v1"
    by (simp add: parse_positional_keeps_prompt)
  obtain buf failed where g: "cin_getline 256 cs = (buf, failed)"
    by (cases "cin_getline 256 cs")
  from assms(3) l p pr assms(2) g have "\<not> failed"
    by (auto simp: main_def prompt_password_def Let_def)
  with l p pr assms(2) g show ?thesis
    by (cases "proxiedProtocol v1")
      (simp_all add: main_def prompt_password_def Let_def run_server_def settings_of_def)
qed

text \<open>The hypotheses of the amended C2 hold for \<open>-p -P cmdline\<close> with \<open>typed\<close> on standard input.\<close>

theorem prompted_password_wins_witness:
  "nth_getopt False optstring 0
       (getopt_init [''-p'', ''-P'', ''cmdline'', ''proxyserver'', ''8080'', ''10000''])
     = Some (CHR ''p'', [])
   \<and> reaches_server (snd (main
         \<lparr>posixly_correct = False, stdin_lflag = Some 0x8A3B, stdin_input = Delivers ''typed\<newline>''\<rparr>
         [''-p'', ''-P'', ''cmdline'', ''proxyserver'', ''8080'', ''10000'']))
   \<and> password_given_to_server (snd (main
         \<lparr>posixly_correct = False, stdin_lflag = Some 0x8A3B, stdin_input = Delivers ''typed\<newline>''\<rparr>
         [''-p'', ''-P'', ''cmdline'', ''proxyserver'', ''8080'', ''10000''])) = Some ''typed''"
proof -
  let ?env = "\<lparr>posixly_correct = False, stdin_lflag = Some 0x8A3B,
                stdin_input = Delivers ''typed\<newline>''\<rparr>"
  let ?args = "[''-p'', ''-P'', ''cmdline'', ''proxyserver'', ''8080'', ''10000'']"
  have n: "nth_getopt (posixly_correct ?env) optstring 0 (getopt_init ?args) = Some (CHR ''p'', [])"
    by code_simp
  have i: "stdin_input ?env = Delivers ''typed\<newline>''"
    by simp
  have r: "reaches_server (snd (main ?env ?args))"
    by code_simp
  have c: "c_string (fst (cin_getline 256 ''typed\<newline>'')) = ''typed''"
    by code_simp
  show ?thesis
    using prompted_password_wins [OF n i r] n r c by simp
qed

text \<open>
  Claim C2 as stated fails: in \<open>-p -P cmdline\<close> the option \<open>-P\<close> is the later of the two,
  and the password given to the server is not \<open>cmdline\<close>.
\<close>

theorem later_direct_password_does_not_win:
  "nth_getopt False optstring 0
       (getopt_init [''-p'', ''-P'', ''cmdline'', ''proxyserver'', ''8080'', ''10000''])
     = Some (CHR ''p'', [])
   \<and> nth_getopt False optstring 1
       (getopt_init [''-p'', ''-P'', ''cmdline'', ''proxyserver'', ''8080'', ''10000''])
     = Some (CHR ''P'', ''cmdline'')
   \<and> password_given_to_server (snd (main
         \<lparr>posixly_correct = False, stdin_lflag = Some 0x8A3B, stdin_input = Delivers ''typed\<newline>''\<rparr>
         [''-p'', ''-P'', ''cmdline'', ''proxyserver'', ''8080'', ''10000''])) \<noteq> Some ''cmdline''"
  by code_simp

subsection \<open>Terminal echo around the read\<close>

lemma echo_cleared: "(l AND NOT ECHO) AND ECHO = 0" for l :: "32 word"
  by (rule bit_word_eqI) (auto simp: bit_simps)

lemma echo_set_again: "(l AND NOT ECHO) OR ECHO = l OR ECHO" for l :: "32 word"
  by (rule bit_word_eqI) (auto simp: bit_simps)

lemma echo_is_set: "(l OR ECHO) AND ECHO = ECHO" for l :: "32 word"
  by (rule bit_word_eqI) (auto simp: bit_simps)

lemma main_read_performed:
  assumes "CinGetline \<in> set (fst (main env args))"
  obtains v1 where
    "main env args = (case prompt_password env v1 of
                        Inl stopped \<Rightarrow> stopped
                      | Inr (evs, v2) \<Rightarrow> (evs, run_server v2))"
proof (cases "main_loop (posixly_correct env) (getopt_init args) initial_vars")
  case (Inl stopped)
  obtain evs out where s: "stopped = (evs, out)" by (cases stopped)
  with Inl main_loop_stopped have "CinGetline \<notin> set evs" by blast
  with Inl s assms show ?thesis by (simp add: main_def)
next
  case (Inr r)
  obtain v positional where r: "r = (v, positional)" by (cases r)
  show ?thesis
  proof (cases "parse_positional v positional")
    case (Inl stopped)
    then have "CinGetline \<notin> set (fst stopped)"
      by (auto simp: parse_positional_def split: if_splits sum.splits stoi_error.splits)
    with Inl Inr r assms show ?thesis by (simp add: main_def)
  next
    case (Inr v1)
    with \<open>main_loop (posixly_correct env) (getopt_init args) initial_vars = Inr r\<close> r assms that
    show ?thesis by (cases "promptPassword v1") (simp_all add: main_def)
  qed
qed

text \<open>
  Claim C5, amended. Whenever the password is read from a terminal, the echo flag is off when
  the read starts; when the read returns, with a line or with a failure, the terminal gets
  its flags back with the echo flag set; when a signal kills the process during the read, the
  echo flag stays off.
\<close>

theorem echo_off_for_read_and_on_after_return:
  assumes "CinGetline \<in> set (fst (main env args))" and "stdin_lflag env = Some l"
  shows "lflag_after l (takeWhile (\<lambda>e. e \<noteq> CinGetline) (fst (main env args))) AND ECHO = 0
       \<and> (\<forall>cs. stdin_input env = Delivers cs \<longrightarrow>
             lflag_after l (fst (main env args)) = l OR ECHO)
       \<and> (stdin_input env = Interrupted \<longrightarrow>
             snd (main env args) = KilledBySignal
             \<and> lflag_after l (fst (main env args)) = l AND NOT ECHO)"
proof -
  from assms(1) obtain v1 where
    m: "main env args = (case prompt_password env v1 of
                           Inl stopped \<Rightarrow> stopped
                         | Inr (evs, v2) \<Rightarrow> (evs, run_server v2))"
    by (rule main_read_performed)
  show ?thesis
  proof (cases "stdin_input env")
    case Interrupted
    with assms(2) show ?thesis
      by (simp add: m prompt_password_def tcsetattr_def echo_cleared)
  next
    case (Delivers cs)
    obtain buf failed where g: "cin_getline 256 cs = (buf, failed)"
      by (cases "cin_getline 256 cs")
    with Delivers assms(2) show ?thesis
      by (cases failed)
        (simp_all add: m prompt_password_def tcsetattr_def echo_cleared echo_set_again)
  qed
qed

text \<open>The hypotheses of the amended C5 hold for \<open>-p\<close> on a terminal.\<close>

theorem echo_off_for_read_and_on_after_return_witness:
  "CinGetline \<in> set (fst (main
       \<lparr>posixly_correct = False, stdin_lflag = Some 0x8A3B, stdin_input = Delivers ''typed\<newline>''\<rparr>
       [''-p'', ''proxyserver'', ''8080'', ''10000'']))
   \<and> lflag_after 0x8A3B (fst (main
       \<lparr>posixly_correct = False, stdin_lflag = Some 0x8A3B, stdin_input = Delivers ''typed\<newline>''\<rparr>
       [''-p'', ''proxyserver'', ''8080'', ''10000''])) = 0x8A3B OR ECHO"
proof -
  let ?env = "\<lparr>posixly_correct = False, stdin_lflag = Some 0x8A3B,
                stdin_input = Delivers ''typed\<newline>''\<rparr>"
  let ?args = "[''-p'', ''proxyserver'', ''8080'', ''10000'']"
  have r: "CinGetline \<in> set (fst (main ?env ?args))"
    by code_simp
  have t: "stdin_lflag ?env = Some 0x8A3B"
    by simp
  show ?thesis
    using echo_off_for_read_and_on_after_return [OF r t] r by simp
qed

text \<open>
  Claim C5 as stated fails: the terminal has its echo flag set, the read is interrupted, and
  the process ends with the echo flag off.
\<close>

theorem interrupted_read_leaves_echo_off:
  "CinGetline \<in> set (fst (main
       \<lparr>posixly_correct = False, stdin_lflag = Some 0x8A3B, stdin_input = Interrupted\<rparr>
       [''-p'', ''proxyserver'', ''8080'', ''10000'']))
   \<and> snd (main
       \<lparr>posixly_correct = False, stdin_lflag = Some 0x8A3B, stdin_input = Interrupted\<rparr>
       [''-p'', ''proxyserver'', ''8080'', ''10000'']) = KilledBySignal
   \<and> (0x8A3B :: 32 word) AND ECHO = ECHO
   \<and> lflag_after 0x8A3B (fst (main
       \<lparr>posixly_correct = False, stdin_lflag = Some 0x8A3B, stdin_input = Interrupted\<rparr>
       [''-p'', ''proxyserver'', ''8080'', ''10000''])) AND ECHO = 0"
  by code_simp

subsection \<open>The line read at the prompt\<close>

lemma getline_chars_line:
  "length line \<le> k \<Longrightarrow> CHR 0x0A \<notin> set line \<Longrightarrow>
   getline_chars k (line @ CHR 0x0A # rest) = (line, AtDelim)"
  by (induction line arbitrary: k) auto

lemma getline_chars_full:
  "k < length cs \<Longrightarrow> CHR 0x0A \<notin> set (take (Suc k) cs) \<Longrightarrow> snd (getline_chars k cs) = Full"
proof (induction cs arbitrary: k)
  case Nil
  then show ?case by simp
next
  case (Cons c cs)
  show ?case
  proof (cases k)
    case 0
    with Cons.prems show ?thesis by simp
  next
    case (Suc j)
    with Cons.prems have "j < length cs" "CHR 0x0A \<notin> set (take (Suc j) cs)" "c \<noteq> CHR 0x0A"
      by auto
    with Cons.IH [of j] Suc show ?thesis
      by (auto split: prod.splits)
  qed
qed

lemma c_string_no_null: "CHR 0x00 \<notin> set buf \<Longrightarrow> c_string buf = buf"
  by (auto simp: c_string_def takeWhile_eq_all_conv)

lemma cin_getline_line:
  "length line \<le> 255 \<Longrightarrow> CHR 0x0A \<notin> set line \<Longrightarrow>
   cin_getline 256 (line @ CHR 0x0A # rest) = (line, False)"
  by (simp add: cin_getline_def getline_chars_line)

lemma cin_getline_too_long:
  "256 \<le> length cs \<Longrightarrow> CHR 0x0A \<notin> set (take 256 cs) \<Longrightarrow> snd (cin_getline 256 cs)"
  using getline_chars_full [of 255 cs]
  by (auto simp: cin_getline_def split: prod.splits)

lemma cin_getline_at_end: "snd (cin_getline 256 [])"
  by (simp add: cin_getline_def)

text \<open>
  Claim C10, amended. When the password is read, a line of at most 255 characters, none of
  them the null character, becomes the password given to the server, whatever \<open>-P\<close> gave;
  when standard input is at its end at once, or its first 256 characters hold no newline, the
  process writes the error line and exits with status 1, after the terminal got its echo flag
  back.
\<close>

theorem prompted_line_is_password:
  assumes "CinGetline \<in> set (fst (main env args))"
  shows "(\<forall>line rest. stdin_input env = Delivers (line @ CHR 0x0A # rest) \<and> length line \<le> 255
             \<and> CHR 0x0A \<notin> set line \<and> CHR 0x00 \<notin> set line
           \<longrightarrow> password_given_to_server (snd (main env args)) = Some line)
       \<and> (\<forall>cs. stdin_input env = Delivers cs
             \<and> (cs = [] \<or> (256 \<le> length cs \<and> CHR 0x0A \<notin> set (take 256 cs)))
           \<longrightarrow> snd (main env args) = Exit 1
               \<and> last (fst (main env args)) = Cerr ''Failed to get password from stdin''
               \<and> (\<forall>l. stdin_lflag env = Some l \<longrightarrow>
                     lflag_after l (fst (main env args)) AND ECHO = ECHO))"
proof -
  from assms obtain v1 where
    m: "main env args = (case prompt_password env v1 of
                           Inl stopped \<Rightarrow> stopped
                         | Inr (evs, v2) \<Rightarrow> (evs, run_server v2))"
    by (rule main_read_performed)
  have ok: "password_given_to_server (snd (main env args)) = Some line"
    if "stdin_input env = Delivers (line @ CHR 0x0A # rest)" "length line \<le> 255"
       "CHR 0x0A \<notin> set line" "CHR 0x00 \<notin> set line" for line rest
    using that
    by (cases "proxiedProtocol v1")
      (simp_all add: m prompt_password_def cin_getline_line c_string_no_null
         run_server_def settings_of_def)
  have bad: "snd (main env args) = Exit 1
               \<and> last (fst (main env args)) = Cerr ''Failed to get password from stdin''
               \<and> (\<forall>l. stdin_lflag env = Some l \<longrightarrow>
                     lflag_after l (fst (main env args)) AND ECHO = ECHO)"
    if d: "stdin_input env = Delivers cs"
      and f: "cs = [] \<or> (256 \<le> length cs \<and> CHR 0x0A \<notin> set (take 256 cs))" for cs
  proof -
    from f have "snd (cin_getline 256 cs)"
      using cin_getline_at_end cin_getline_too_long by blast
    then obtain buf where "cin_getline 256 cs = (buf, True)"
      by (cases "cin_getline 256 cs") simp
    with d show ?thesis
      by (auto simp: m prompt_password_def tcsetattr_def echo_set_again echo_is_set)
  qed
  from ok bad show ?thesis by blast
qed

text \<open>The hypothesis of the amended C10 holds for \<open>-P cmdline -p\<close> and for \<open>-p\<close>.\<close>

theorem prompted_line_is_password_witness:
  "CinGetline \<in> set (fst (main
       \<lparr>posixly_correct = False, stdin_lflag = Some 0x8A3B, stdin_input = Delivers ''typed\<newline>''\<rparr>
       [''-P'', ''cmdline'', ''-p'', ''proxyserver'', ''8080'', ''10000'']))
   \<and> password_given_to_server (snd (main
       \<lparr>posixly_correct = False, stdin_lflag = Some 0x8A3B, stdin_input = Delivers ''typed\<newline>''\<rparr>
       [''-P'', ''cmdline'', ''-p'', ''proxyserver'', ''8080'', ''10000''])) = Some ''typed''
   \<and> CinGetline \<in> set (fst (main
       \<lparr>posixly_correct = False, stdin_lflag = Some 0x8A3B, stdin_input = Delivers []\<rparr>
       [''-p'', ''proxyserver'', ''8080'', ''10000'']))
   \<and> snd (main
       \<lparr>posixly_correct = False, stdin_lflag = Some 0x8A3B, stdin_input = Delivers []\<rparr>
       [''-p'', ''proxyserver'', ''8080'', ''10000'']) = Exit 1"
proof -
  let ?env = "\<lparr>posixly_correct = False, stdin_lflag = Some 0x8A3B,
                stdin_input = Delivers ''typed\<newline>''\<rparr>"
  let ?args = "[''-P'', ''cmdline'', ''-p'', ''proxyserver'', ''8080'', ''10000'']"
  let ?env' = "\<lparr>posixly_correct = False, stdin_lflag = Some 0x8A3B, stdin_input = Delivers []\<rparr>"
  let ?args' = "[''-p'', ''proxyserver'', ''8080'', ''10000'']"
  have r: "CinGetline \<in> set (fst (main ?env ?args))"
    by code_simp
  have r': "CinGetline \<in> set (fst (main ?env' ?args'))"
    by code_simp
  from prompted_line_is_password [OF r, THEN conjunct1, rule_format, of "''typed''" "[]"]
  have "password_given_to_server (snd (main ?env ?args)) = Some ''typed''"
    by simp
  moreover from prompted_line_is_password [OF r', THEN conjunct2, rule_format, of "[]"]
  have "snd (main ?env' ?args') = Exit 1"
    by simp
  ultimately show ?thesis using r r' by simp
qed

text \<open>
  Claim C10 as stated fails: the line of three characters \<open>a\<close>, null, \<open>b\<close> does not
  become the password; the password is \<open>a\<close>.
\<close>

theorem null_character_cuts_password:
  "CinGetline \<in> set (fst (main
       \<lparr>posixly_correct = False, stdin_lflag = Some 0x8A3B,
        stdin_input = Delivers [CHR ''a'', CHR 0x00, CHR ''b'', CHR 0x0A]\<rparr>
       [''-p'', ''proxyserver'', ''8080'', ''10000'']))
   \<and> length [CHR ''a'', CHR 0x00, CHR ''b''] \<le> 255
   \<and> password_given_to_server (snd (main
       \<lparr>posixly_correct = False, stdin_lflag = Some 0x8A3B,
        stdin_input = Delivers [CHR ''a'', CHR 0x00, CHR ''b'', CHR 0x0A]\<rparr>
       [''-p'', ''proxyserver'', ''8080'', ''10000''])) = Some ''a''
   \<and> ''a'' \<noteq> [CHR ''a'', CHR 0x00, CHR ''b'']"
  by code_simp

section \<open>Properties of the handshakes and the relay\<close>

subsection \<open>HTTP\<close>

lemma status_line_first:
  "CHR 0x0D \<notin> set l \<Longrightarrow> status_line (l @ CHR 0x0D # CHR 0x0A # rest) = Some l"
  by (induction l) auto

lemma status_line_Some:
  "status_line r = Some l \<Longrightarrow> \<exists>rest. r = l @ CHR 0x0D # CHR 0x0A # rest"
proof (induction r arbitrary: l)
  case Nil
  then show ?case by simp
next
  case (Cons c cs)
  show ?case
  proof (cases "c = CHR 0x0D \<and> take 1 cs = [CHR 0x0A]")
    case True
    with Cons.prems have "l = []" by simp
    moreover from True obtain cs' where "cs = CHR 0x0A # cs'" by (cases cs) auto
    ultimately show ?thesis using True by simp
  next
    case False
    with Cons.prems obtain l' where "status_line cs = Some l'" "l = c # l'"
      by auto
    with Cons.IH show ?thesis by auto
  qed
qed

lemma decimal_digit:
  "c \<in> set ''0123456789'' \<Longrightarrow>
     isdigit c \<and> 0 \<le> digit_val c \<and> digit_val c \<le> 9 \<and> (digit_val c = 2) = (c = CHR ''2'')"
  by (auto simp: isdigit_def digit_val_def)

lemma isdigit_decimal: "isdigit c \<Longrightarrow> c \<in> set ''0123456789''"
proof -
  assume "isdigit c"
  then have r: "(of_char c :: nat) \<in> {48, 49, 50, 51, 52, 53, 54, 55, 56, 57}"
    unfolding isdigit_def by (simp; arith)
  have eq: "c = d" if "(of_char c :: nat) = of_char d" for d
    using that by simp
  from r eq [of "CHR ''0''"] eq [of "CHR ''1''"] eq [of "CHR ''2''"] eq [of "CHR ''3''"]
    eq [of "CHR ''4''"] eq [of "CHR ''5''"] eq [of "CHR ''6''"] eq [of "CHR ''7''"]
    eq [of "CHR ''8''"] eq [of "CHR ''9''"]
  show ?thesis by auto
qed

lemma takeWhile_until:
  "x \<notin> set xs \<Longrightarrow> takeWhile (\<lambda>c. c \<noteq> x) (xs @ x # ys) = xs"
  by (induction xs) auto

lemma dropWhile_until:
  "x \<notin> set xs \<Longrightarrow> dropWhile (\<lambda>c. c \<noteq> x) (xs @ x # ys) = x # ys"
  by (induction xs) auto

lemma status_code_range:
  assumes "a \<in> set ''0123456789''" "b \<in> set ''0123456789''" "c \<in> set ''0123456789''"
  shows "(200 \<le> nat (digits_value 0 [a, b, c]) \<and> nat (digits_value 0 [a, b, c]) < 300)
           = (a = CHR ''2'')"
proof -
  from assms decimal_digit [of a] decimal_digit [of b] decimal_digit [of c]
  have d: "0 \<le> digit_val a" "digit_val a \<le> 9" "0 \<le> digit_val b" "digit_val b \<le> 9"
    "0 \<le> digit_val c" "digit_val c \<le> 9" "(digit_val a = 2) = (a = CHR ''2'')"
    by blast+
  have "digits_value 0 [a, b, c] = 100 * digit_val a + 10 * digit_val b + digit_val c"
    by simp
  with d show ?thesis by auto
qed

lemma http_status_of_line:
  assumes v: "take 5 version = ''HTTP/''" "CHR '' '' \<notin> set version"
    and dg: "a \<in> set ''0123456789''" "b \<in> set ''0123456789''" "c \<in> set ''0123456789''"
    and t: "tail = [] \<or> hd tail = CHR '' ''"
    and cr: "CHR 0x0D \<notin> set (version @ tail)"
  shows "http_status (version @ '' '' @ [a, b, c] @ tail @ [CHR 0x0D, CHR 0x0A] @ rest)
           = Some (nat (digits_value 0 [a, b, c]))"
proof -
  let ?line = "version @ '' '' @ [a, b, c] @ tail"
  from dg have sp: "a \<noteq> CHR '' ''" "b \<noteq> CHR '' ''" "c \<noteq> CHR '' ''"
    and ncr: "a \<noteq> CHR 0x0D" "b \<noteq> CHR 0x0D" "c \<noteq> CHR 0x0D"
    by auto
  from cr ncr have "CHR 0x0D \<notin> set ?line" by simp
  from status_line_first [OF this, of rest]
  have sl: "status_line (version @ '' '' @ [a, b, c] @ tail @ [CHR 0x0D, CHR 0x0A] @ rest)
              = Some ?line"
    by simp
  from v(2) have tw: "takeWhile (\<lambda>c. c \<noteq> CHR '' '') ?line = version"
    by (simp add: takeWhile_until)
  from v(2) have dw: "dropWhile (\<lambda>c. c \<noteq> CHR '' '') ?line = '' '' @ [a, b, c] @ tail"
    by (simp add: dropWhile_until)
  from t sp have code: "takeWhile (\<lambda>c. c \<noteq> CHR '' '') ([a, b, c] @ tail) = [a, b, c]"
    by (cases tail) auto
  from dg have "list_all isdigit [a, b, c]"
    by (simp add: decimal_digit)
  with sl tw dw code v(1) show ?thesis
    by (simp add: http_status_def)
qed

lemma http_status_Some:
  assumes "http_status response = Some n"
  shows "\<exists>version a b c tail rest.
           response = version @ '' '' @ [a, b, c] @ tail @ [CHR 0x0D, CHR 0x0A] @ rest
           \<and> take 5 version = ''HTTP/'' \<and> CHR '' '' \<notin> set version
           \<and> a \<in> set ''0123456789'' \<and> b \<in> set ''0123456789'' \<and> c \<in> set ''0123456789''
           \<and> (tail = [] \<or> hd tail = CHR '' '')
           \<and> n = nat (digits_value 0 [a, b, c])"
proof -
  from assms obtain line where sl: "status_line response = Some line"
    by (auto simp: http_status_def split: option.splits)
  define version where "version = takeWhile (\<lambda>c. c \<noteq> CHR '' '') line"
  define after where "after = dropWhile (\<lambda>c. c \<noteq> CHR '' '') line"
  define code where "code = takeWhile (\<lambda>c. c \<noteq> CHR '' '') (drop 1 after)"
  define tail where "tail = dropWhile (\<lambda>c. c \<noteq> CHR '' '') (drop 1 after)"
  from assms sl have f: "take 5 version = ''HTTP/''" "length code = 3" "list_all isdigit code"
    "n = nat (digits_value 0 code)"
    by (auto simp: http_status_def Let_def version_def code_def after_def split: if_splits)
  from f(2) have "after \<noteq> []" by (auto simp: code_def)
  then have "hd after = CHR '' ''"
    unfolding after_def using hd_dropWhile [of "\<lambda>c. c \<noteq> CHR '' ''" line] by simp
  with \<open>after \<noteq> []\<close> have after: "after = CHR '' '' # drop 1 after"
    by (cases after) auto
  have "line = version @ after"
    by (simp add: version_def after_def)
  also have "drop 1 after = code @ tail"
    by (simp add: code_def tail_def)
  then have "version @ after = version @ '' '' @ code @ tail"
    using after by simp
  finally have line: "line = version @ '' '' @ code @ tail" .
  from f(2) obtain a b c where abc: "code = [a, b, c]"
    by (cases code; cases "tl code"; cases "tl (tl code)") auto
  from f(3) abc have dg: "a \<in> set ''0123456789''" "b \<in> set ''0123456789''" "c \<in> set ''0123456789''"
    using isdigit_decimal by auto
  have nv: "CHR '' '' \<notin> set version"
    unfolding version_def by (auto dest: set_takeWhileD)
  have t: "tail = [] \<or> hd tail = CHR '' ''"
    unfolding tail_def using hd_dropWhile [of "\<lambda>c. c \<noteq> CHR '' ''" "drop 1 after"] by auto
  from status_line_Some [OF sl] obtain rest where "response = line @ CHR 0x0D # CHR 0x0A # rest"
    by blast
  with line abc have "response = version @ '' '' @ [a, b, c] @ tail @ [CHR 0x0D, CHR 0x0A] @ rest"
    by simp
  with f(1) nv dg t f(4) abc show ?thesis by blast
qed

text \<open>
  Claim C6. The HTTP handshake sends \<open>CONNECT host:port HTTP/1.1\<close>, a \<open>Host\<close> header and,
  exactly when credentials are configured, a \<open>Proxy-Authorization: Basic\<close> header with the
  Base64 of \<open>user:pass\<close>, each line ended by carriage return and line feed, and then a blank
  line; for \<open>alice\<close> and \<open>secret\<close> the header is
  \<open>Proxy-Authorization: Basic YWxpY2U6c2VjcmV0\<close>. A response whose first line is
  \<open>HTTP/\<close>version, a space, three digits, and then the line end or a space and a reason,
  gives the Tunnel when the first digit is 2 and fails with \<open>ProxyRejected\<close> when it is
  not; a response gives the Tunnel only if it begins with such a line with a 2xx status; and
  every response that does not give the Tunnel fails with \<open>ProxyRejected\<close>.
\<close>

theorem http_connect_handshake:
  "http_connect_request s d =
     ''CONNECT '' @ address d @ '':'' @ decimal (port d) @ '' HTTP/1.1'' @ [CHR 0x0D, CHR 0x0A]
     @ ''Host: '' @ address d @ '':'' @ decimal (port d) @ [CHR 0x0D, CHR 0x0A]
     @ (if credentials_configured s
        then ''Proxy-Authorization: Basic '' @ base64 (username s @ '':'' @ password s)
             @ [CHR 0x0D, CHR 0x0A]
        else [])
     @ [CHR 0x0D, CHR 0x0A]
   \<and> http_connect_request
        \<lparr>proxyProtocol = HTTP, proxiedProtocol = TCP, proxyHost = ''proxyserver'',
         proxyPort = 8080, username = ''alice'', password = ''secret''\<rparr>
        \<lparr>address = ''93.184.216.34'', port = 443\<rparr>
       = ''CONNECT 93.184.216.34:443 HTTP/1.1'' @ [CHR 0x0D, CHR 0x0A]
         @ ''Host: 93.184.216.34:443'' @ [CHR 0x0D, CHR 0x0A]
         @ ''Proxy-Authorization: Basic YWxpY2U6c2VjcmV0'' @ [CHR 0x0D, CHR 0x0A]
         @ [CHR 0x0D, CHR 0x0A]
   \<and> (\<exists>v. (''Proxy-Authorization'', v) \<in> set (http_connect_headers s d))
       = credentials_configured s
   \<and> http_connect_headers (s\<lparr>username := ''alice'', password := ''secret''\<rparr>) d
       = [(''Host'', address d @ '':'' @ decimal (port d)),
          (''Proxy-Authorization'', ''Basic YWxpY2U6c2VjcmV0'')]
   \<and> (take 5 version = ''HTTP/'' \<and> CHR '' '' \<notin> set version
        \<and> a \<in> set ''0123456789'' \<and> b \<in> set ''0123456789'' \<and> c \<in> set ''0123456789''
        \<and> (tail = [] \<or> hd tail = CHR '' '') \<and> CHR 0x0D \<notin> set (version @ tail)
      \<longrightarrow> http_handshake (version @ '' '' @ [a, b, c] @ tail @ [CHR 0x0D, CHR 0x0A] @ rest)
            = (if a = CHR ''2'' then Tunnel else Failed ProxyRejected))
   \<and> (http_handshake response = Tunnel \<longrightarrow>
        (\<exists>version b c tail rest.
           response = version @ '' 2'' @ [b, c] @ tail @ [CHR 0x0D, CHR 0x0A] @ rest
           \<and> take 5 version = ''HTTP/'' \<and> CHR '' '' \<notin> set version
           \<and> b \<in> set ''0123456789'' \<and> c \<in> set ''0123456789''
           \<and> (tail = [] \<or> hd tail = CHR '' '')))
   \<and> (http_handshake response = Tunnel \<or> http_handshake response = Failed ProxyRejected)"
proof -
  have request: "http_connect_request s d =
     ''CONNECT '' @ address d @ '':'' @ decimal (port d) @ '' HTTP/1.1'' @ [CHR 0x0D, CHR 0x0A]
     @ ''Host: '' @ address d @ '':'' @ decimal (port d) @ [CHR 0x0D, CHR 0x0A]
     @ (if credentials_configured s
        then ''Proxy-Authorization: Basic '' @ base64 (username s @ '':'' @ password s)
             @ [CHR 0x0D, CHR 0x0A]
        else [])
     @ [CHR 0x0D, CHR 0x0A]"
    by (simp add: http_connect_request_def http_connect_headers_def host_port_def CRLF_def)
  have example: "http_connect_request
        \<lparr>proxyProtocol = HTTP, proxiedProtocol = TCP, proxyHost = ''proxyserver'',
         proxyPort = 8080, username = ''alice'', password = ''secret''\<rparr>
        \<lparr>address = ''93.184.216.34'', port = 443\<rparr>
       = ''CONNECT 93.184.216.34:443 HTTP/1.1'' @ [CHR 0x0D, CHR 0x0A]
         @ ''Host: 93.184.216.34:443'' @ [CHR 0x0D, CHR 0x0A]
         @ ''Proxy-Authorization: Basic YWxpY2U6c2VjcmV0'' @ [CHR 0x0D, CHR 0x0A]
         @ [CHR 0x0D, CHR 0x0A]"
    by code_simp
  have header: "(\<exists>v. (''Proxy-Authorization'', v) \<in> set (http_connect_headers s d))
       = credentials_configured s"
    by (simp add: http_connect_headers_def)
  have "base64 (''alice'' @ '':'' @ ''secret'') = ''YWxpY2U6c2VjcmV0''"
    by code_simp
  then have alice: "http_connect_headers (s\<lparr>username := ''alice'', password := ''secret''\<rparr>) d
       = [(''Host'', address d @ '':'' @ decimal (port d)),
          (''Proxy-Authorization'', ''Basic YWxpY2U6c2VjcmV0'')]"
    by (simp add: http_connect_headers_def credentials_configured_def host_port_def)
  have line: "http_handshake (version @ '' '' @ [a, b, c] @ tail @ [CHR 0x0D, CHR 0x0A] @ rest)
            = (if a = CHR ''2'' then Tunnel else Failed ProxyRejected)"
    if "take 5 version = ''HTTP/'' \<and> CHR '' '' \<notin> set version
        \<and> a \<in> set ''0123456789'' \<and> b \<in> set ''0123456789'' \<and> c \<in> set ''0123456789''
        \<and> (tail = [] \<or> hd tail = CHR '' '') \<and> CHR 0x0D \<notin> set (version @ tail)"
  proof -
    from that have st: "http_status (version @ '' '' @ [a, b, c] @ tail @ [CHR 0x0D, CHR 0x0A] @ rest)
           = Some (nat (digits_value 0 [a, b, c]))"
      by (intro http_status_of_line) simp_all
    from that status_code_range [of a b c]
    have "(200 \<le> nat (digits_value 0 [a, b, c]) \<and> nat (digits_value 0 [a, b, c]) < 300)
           = (a = CHR ''2'')"
      by blast
    with st show ?thesis
      unfolding http_handshake_def by (simp del: digits_value.simps append.simps)
  qed
  have granted: "\<exists>version b c tail rest.
           response = version @ '' 2'' @ [b, c] @ tail @ [CHR 0x0D, CHR 0x0A] @ rest
           \<and> take 5 version = ''HTTP/'' \<and> CHR '' '' \<notin> set version
           \<and> b \<in> set ''0123456789'' \<and> c \<in> set ''0123456789''
           \<and> (tail = [] \<or> hd tail = CHR '' '')"
    if "http_handshake response = Tunnel"
  proof -
    from that obtain n where n: "http_status response = Some n" "200 \<le> n" "n < 300"
      by (auto simp: http_handshake_def split: option.splits if_splits)
    from http_status_Some [OF n(1)] obtain version a b c tail rest where
      r: "response = version @ '' '' @ [a, b, c] @ tail @ [CHR 0x0D, CHR 0x0A] @ rest"
      and v: "take 5 version = ''HTTP/''" "CHR '' '' \<notin> set version"
      and dg: "a \<in> set ''0123456789''" "b \<in> set ''0123456789''" "c \<in> set ''0123456789''"
      and t: "tail = [] \<or> hd tail = CHR '' ''"
      and nv: "n = nat (digits_value 0 [a, b, c])"
      by blast
    from status_code_range [OF dg] n(2,3) nv have "a = CHR ''2''" by blast
    with r have "response = version @ '' 2'' @ [b, c] @ tail @ [CHR 0x0D, CHR 0x0A] @ rest"
      by simp
    with v dg t show ?thesis by blast
  qed
  have either: "http_handshake response = Tunnel \<or> http_handshake response = Failed ProxyRejected"
    by (simp add: http_handshake_def split: option.splits)
  from request example header alice line granted either show ?thesis
    by (intro conjI impI)
qed

text \<open>
  The hypotheses of C6 hold for the responses \<open>HTTP/1.1 200 Connection established\<close> and
  \<open>HTTP/1.1 407 Proxy Authentication Required\<close>.
\<close>

theorem http_connect_handshake_witness:
  "http_handshake (''HTTP/1.1 200 Connection established'' @ [CHR 0x0D, CHR 0x0A]
                    @ [CHR 0x0D, CHR 0x0A]) = Tunnel
   \<and> http_handshake (''HTTP/1.1 407 Proxy Authentication Required'' @ [CHR 0x0D, CHR 0x0A]
                    @ [CHR 0x0D, CHR 0x0A]) = Failed ProxyRejected
   \<and> (\<exists>version b c tail rest.
         ''HTTP/1.1 200 Connection established'' @ [CHR 0x0D, CHR 0x0A] @ [CHR 0x0D, CHR 0x0A]
           = version @ '' 2'' @ [b, c] @ tail @ [CHR 0x0D, CHR 0x0A] @ rest
         \<and> take 5 version = ''HTTP/'')"
proof -
  note t = http_connect_handshake
  have ok: "http_handshake (''HTTP/1.1'' @ '' '' @ [CHR ''2'', CHR ''0'', CHR ''0'']
              @ '' Connection established'' @ [CHR 0x0D, CHR 0x0A] @ [CHR 0x0D, CHR 0x0A])
            = Tunnel"
    using t [where version = "''HTTP/1.1''" and a = "CHR ''2''" and b = "CHR ''0''"
               and c = "CHR ''0''" and tail = "'' Connection established''"
               and rest = "[CHR 0x0D, CHR 0x0A]"]
    by simp
  have no: "http_handshake (''HTTP/1.1'' @ '' '' @ [CHR ''4'', CHR ''0'', CHR ''7'']
              @ '' Proxy Authentication Required'' @ [CHR 0x0D, CHR 0x0A] @ [CHR 0x0D, CHR 0x0A])
            = Failed ProxyRejected"
    using t [where version = "''HTTP/1.1''" and a = "CHR ''4''" and b = "CHR ''0''"
               and c = "CHR ''7''" and tail = "'' Proxy Authentication Required''"
               and rest = "[CHR 0x0D, CHR 0x0A]"]
    by simp
  from ok have ok': "http_handshake (''HTTP/1.1 200 Connection established''
              @ [CHR 0x0D, CHR 0x0A] @ [CHR 0x0D, CHR 0x0A]) = Tunnel"
    by simp
  from t [where response = "''HTTP/1.1 200 Connection established'' @ [CHR 0x0D, CHR 0x0A]
                              @ [CHR 0x0D, CHR 0x0A]"]
    ok'
  have "\<exists>version b c tail rest.
         ''HTTP/1.1 200 Connection established'' @ [CHR 0x0D, CHR 0x0A] @ [CHR 0x0D, CHR 0x0A]
           = version @ '' 2'' @ [b, c] @ tail @ [CHR 0x0D, CHR 0x0A] @ rest
         \<and> take 5 version = ''HTTP/''"
    by blast
  with ok no show ?thesis by simp
qed

subsection \<open>SOCKS5 greeting\<close>

text \<open>
  Claim C7. The method list of the SOCKS5 greeting holds only the no-authentication method
  (0) when no credentials are configured, and exactly the no-authentication and the
  username/password method (0 and 2) when they are.
\<close>

theorem socks5_greeting_lists_methods:
  "greeting_methods (socks5_greeting s)
     = Some (if credentials_configured s then [0, 2] else [0])
   \<and> socks5_greeting s = (if credentials_configured s then [5, 2, 0, 2] else [5, 1, 0])"
  by (simp add: greeting_methods_def socks5_greeting_def socks5_methods_def)

subsection \<open>SOCKS4 reply\<close>

text \<open>
  Claim C8. In the SOCKS4 handshake a reply with status \<open>0x5A\<close> gives the Tunnel, on which
  the relay starts; a reply with any other status fails with \<open>ProxyRejected\<close>, no relay is
  started and the upstream socket is closed.
\<close>

theorem socks4_reply_status_decides:
  "(reply_status reply = 0x5A \<longrightarrow>
      socks4_connection reply
        = (Tunnel, \<lparr>client_open = True, upstream_open = True, relay_started = True\<rparr>))
   \<and> (reply_status reply \<noteq> 0x5A \<longrightarrow>
        fst (socks4_connection reply) = Failed ProxyRejected
        \<and> \<not> relay_started (snd (socks4_connection reply))
        \<and> \<not> upstream_open (snd (socks4_connection reply)))"
  by (simp add: socks4_connection_def socks4_handshake_def cleaner_def)

text \<open>The two hypotheses of C8 hold for the statuses \<open>0x5A\<close> and \<open>0x5B\<close>.\<close>

theorem socks4_reply_status_decides_witness:
  "socks4_connection \<lparr>reply_version = 0, reply_status = 0x5A, reply_port = 0, reply_address = 0\<rparr>
     = (Tunnel, \<lparr>client_open = True, upstream_open = True, relay_started = True\<rparr>)
   \<and> (0x5B :: 8 word) \<noteq> 0x5A
   \<and> fst (socks4_connection
        \<lparr>reply_version = 0, reply_status = 0x5B, reply_port = 0, reply_address = 0\<rparr>)
       = Failed ProxyRejected
   \<and> \<not> upstream_open (snd (socks4_connection
        \<lparr>reply_version = 0, reply_status = 0x5B, reply_port = 0, reply_address = 0\<rparr>))"
  using
    socks4_reply_status_decides
      [of "\<lparr>reply_version = 0, reply_status = 0x5A, reply_port = 0, reply_address = 0\<rparr>"]
    socks4_reply_status_decides
      [of "\<lparr>reply_version = 0, reply_status = 0x5B, reply_port = 0, reply_address = 0\<rparr>"]
  by simp

subsection \<open>Stream relay\<close>








end
